theory Spec2Isabelle
  imports Main "HOL-Library.Word"
begin

unbundle bit_operations_syntax

section \<open>The Datadog propagator for OpenTelemetry\<close>

text \<open>
  The program (\<^verbatim>\<open>propagator.go\<close>) converts a span context to and from three textual
  headers. Its own functions are \<^verbatim>\<open>convertOTtoDD\<close>, \<^verbatim>\<open>convertDDtoOT\<close>, \<^verbatim>\<open>extract\<close>,
  \<^verbatim>\<open>Inject\<close>, \<^verbatim>\<open>Extract\<close> and \<^verbatim>\<open>Fields\<close>. They call the Go standard library
  (\<^verbatim>\<open>strconv\<close>, \<^verbatim>\<open>fmt\<close>, \<^verbatim>\<open>encoding/hex\<close>) and the OpenTelemetry \<^verbatim>\<open>trace\<close> package;
  those functions are embedded first, as far as the program uses them.

  A Go string is a sequence of bytes: it is a \<^typ>\<open>string\<close> here, whose characters are
  8-bit. An \<^verbatim>\<open>uint64\<close> is a 64-bit word, a \<^verbatim>\<open>byte\<close> an 8-bit word. Go's \<^verbatim>\<open>int\<close> is taken
  to be 64 bits wide (\<^verbatim>\<open>strconv.IntSize = 64\<close>).
\<close>

type_synonym uint64 = "64 word"
type_synonym byte = "8 word"

subsection \<open>Package strconv\<close>

datatype NumError = ErrSyntax | ErrRange | ErrBase | ErrBitSize

text \<open>\<^verbatim>\<open>lower(c) = c | ('x' - 'X')\<close>, on the code of the byte.\<close>

definition lower :: "nat \<Rightarrow> nat" where
  "lower c = c OR 32"

text \<open>
  The value of one byte as a digit, as the \<^verbatim>\<open>switch\<close> in the loop of \<^verbatim>\<open>ParseUint\<close>
  computes it: \<^verbatim>\<open>'0'..'9'\<close> are 0..9, a letter of either case is 10..35, anything
  else is a syntax error (\<open>None\<close>). The underscore case needs base 0, which the
  program never passes.
\<close>

definition digitVal :: "char \<Rightarrow> nat option" where
  "digitVal ch =
     (let c = (of_char ch :: nat) in
      if 48 \<le> c \<and> c \<le> 57 then Some (c - 48)
      else if 97 \<le> lower c \<and> lower c \<le> 122 then Some (lower c - 97 + 10)
      else None)"

text \<open>
  The loop of \<^verbatim>\<open>ParseUint\<close> over the bytes of the string, on 64-bit words:
  \<^verbatim>\<open>
    if d >= byte(base) { return 0, syntaxError }
    if n >= cutoff { return maxVal, rangeError }     // n*base overflows
    n *= uint64(base)
    n1 := n + uint64(d)
    if n1 < n || n1 > maxVal { return maxVal, rangeError }   // n+d overflows
    n = n1
  \<close>
\<close>

fun parseDigits :: "nat \<Rightarrow> uint64 \<Rightarrow> uint64 \<Rightarrow> uint64 \<Rightarrow> string \<Rightarrow> NumError + uint64" where
  "parseDigits base cutoff maxVal n [] = Inr n"
| "parseDigits base cutoff maxVal n (c # cs) =
     (case digitVal c of
        None \<Rightarrow> Inl ErrSyntax
      | Some d \<Rightarrow>
          if d \<ge> base then Inl ErrSyntax
          else if n \<ge> cutoff then Inl ErrRange
          else
            (let n' = n * of_nat base;
                 n1 = n' + of_nat d
             in if n1 < n' \<or> n1 > maxVal then Inl ErrRange
                else parseDigits base cutoff maxVal n1 cs))"

text \<open>
  \<^verbatim>\<open>strconv.ParseUint(s, base, bitSize)\<close> for an explicit base between 2 and 36 (the
  program passes 10 and 16). The prefix detection of base 0 is not embedded: base 0
  is answered like any other base outside 2..36.
\<close>

definition ParseUint :: "string \<Rightarrow> nat \<Rightarrow> nat \<Rightarrow> NumError + uint64" where
  "ParseUint s base bitSize =
     (if s = [] then Inl ErrSyntax
      else if \<not> (2 \<le> base \<and> base \<le> 36) then Inl ErrBase
      else if bitSize > 64 then Inl ErrBitSize
      else
        (let bs = (if bitSize = 0 then 64 else bitSize);
             cutoff = (- 1) div of_nat base + 1;
             maxVal = push_bit bs 1 - 1
         in parseDigits base cutoff maxVal 0 s))"

text \<open>
  \<^verbatim>\<open>strconv.ParseInt(s, 10, 0)\<close>, the slow path of \<^verbatim>\<open>Atoi\<close>: a leading sign is picked
  off, the rest is parsed unsigned, and the magnitude is checked against
  \<^verbatim>\<open>cutoff = 1 << 63\<close>. A range error of \<^verbatim>\<open>ParseUint\<close> comes with the value
  \<^verbatim>\<open>maxVal\<close>, which fails that check, so every error of \<^verbatim>\<open>ParseUint\<close> is an error
  here. The result is Go's \<^verbatim>\<open>int64\<close>, read as an integer.
\<close>

definition ParseInt10 :: "string \<Rightarrow> NumError + int" where
  "ParseInt10 s =
     (if s = [] then Inl ErrSyntax
      else
        (let neg = (hd s = CHR ''-'');
             s' = (if hd s = CHR ''+'' \<or> hd s = CHR ''-'' then tl s else s)
         in case ParseUint s' 10 0 of
              Inl e \<Rightarrow> Inl e
            | Inr un \<Rightarrow>
                if \<not> neg \<and> un \<ge> push_bit 63 1 then Inl ErrRange
                else if neg \<and> un > push_bit 63 1 then Inl ErrRange
                else Inr (if neg then - uint un else uint un)))"

text \<open>
  The loop of the fast path of \<^verbatim>\<open>Atoi\<close>: \<^verbatim>\<open>ch -= '0'; if ch > 9 { syntax error };
  n = n*10 + int(ch)\<close>. The subtraction is on a byte and wraps, so a byte below
  \<^verbatim>\<open>'0'\<close> becomes large and is refused too. At most 18 digits are read, so \<open>n\<close> stays
  below \<open>10 ^ 18\<close> and never overflows.
\<close>

fun atoiDigits :: "int \<Rightarrow> string \<Rightarrow> NumError + int" where
  "atoiDigits n [] = Inr n"
| "atoiDigits n (c # cs) =
     (let ch = (of_nat (of_char c) :: byte) - 48
      in if ch > 9 then Inl ErrSyntax
         else atoiDigits (n * 10 + uint ch) cs)"

text \<open>\<^verbatim>\<open>strconv.Atoi\<close>, with its fast path for strings of 1 to 18 bytes.\<close>

definition Atoi :: "string \<Rightarrow> NumError + int" where
  "Atoi s =
     (if 0 < length s \<and> length s < 19 then
        (let s' = (if hd s = CHR ''-'' \<or> hd s = CHR ''+'' then tl s else s)
         in if (hd s = CHR ''-'' \<or> hd s = CHR ''+'') \<and> length s' < 1 then Inl ErrSyntax
            else case atoiDigits 0 s' of
                   Inl e \<Rightarrow> Inl e
                 | Inr n \<Rightarrow> Inr (if hd s = CHR ''-'' then - n else n))
      else ParseInt10 s)"

text \<open>
  \<^verbatim>\<open>strconv.FormatUint(u, base)\<close>: the digits of \<^verbatim>\<open>u\<close>, most significant first, no
  leading zero, \<^verbatim>\<open>"0"\<close> for zero. The general loop of \<^verbatim>\<open>formatBits\<close> is
  \<^verbatim>\<open>for u >= b { q := u / b; a[i] = digits[u - q*b]; u = q }; a[i] = digits[u]\<close>;
  its fast paths for base 10 and for powers of two write the same digits. Neither the
  division nor \<^verbatim>\<open>u - q*b\<close> can overflow, so the loop is on the value of the word. Go
  panics on a base outside 2..36; the program passes 10 and 16.
\<close>

definition digits :: string where
  "digits = ''0123456789abcdefghijklmnopqrstuvwxyz''"

function formatBits :: "nat \<Rightarrow> nat \<Rightarrow> string \<Rightarrow> string" where
  "formatBits u b a =
     (if 2 \<le> b \<and> u \<ge> b then formatBits (u div b) b (digits ! (u - (u div b) * b) # a)
      else digits ! u # a)"
  by pat_completeness auto
termination
  by (relation "measure (\<lambda>(u, b, a). u)") auto

definition FormatUint :: "uint64 \<Rightarrow> nat \<Rightarrow> string" where
  "FormatUint u base = formatBits (unat u) base []"

declare formatBits.simps [simp del]

subsection \<open>Package fmt\<close>

text \<open>
  \<^verbatim>\<open>fmt.Sprintf("%0Ns", s)\<close> for a width \<open>N\<close>: a string shorter than the width is padded
  on the left with the character \<^verbatim>\<open>'0'\<close>, a longer one is written as it is. The width
  counts runes; the strings the program pads are ASCII, where a rune is a byte.
\<close>

definition Sprintf_0s :: "nat \<Rightarrow> string \<Rightarrow> string" where
  "Sprintf_0s width s = replicate (width - length s) CHR ''0'' @ s"

subsection \<open>Package encoding/hex\<close>

definition hextable :: string where
  "hextable = ''0123456789abcdef''"

text \<open>\<^verbatim>\<open>hex.EncodeToString\<close>: two characters for each byte, \<^verbatim>\<open>hextable[v>>4]\<close> and
  \<^verbatim>\<open>hextable[v&0x0f]\<close>.\<close>

fun EncodeToString :: "byte list \<Rightarrow> string" where
  "EncodeToString [] = []"
| "EncodeToString (v # vs) =
     hextable ! unat (drop_bit 4 v) # hextable ! unat (v AND 15) # EncodeToString vs"

text \<open>\<^verbatim>\<open>fromHexChar\<close>: the value of a hex character of either case.\<close>

definition fromHexChar :: "char \<Rightarrow> byte option" where
  "fromHexChar ch =
     (let c = (of_char ch :: nat) in
      if 48 \<le> c \<and> c \<le> 57 then Some (of_nat (c - 48))
      else if 97 \<le> c \<and> c \<le> 102 then Some (of_nat (c - 97 + 10))
      else if 65 \<le> c \<and> c \<le> 70 then Some (of_nat (c - 65 + 10))
      else None)"

text \<open>\<^verbatim>\<open>hex.DecodeString\<close>: each pair of characters is the byte \<^verbatim>\<open>(a << 4) | b\<close>; a
  character that is no hex digit or an odd length is an error (\<open>None\<close>).\<close>

fun DecodeString :: "string \<Rightarrow> byte list option" where
  "DecodeString [] = Some []"
| "DecodeString [p] = None"
| "DecodeString (p # q # src) =
     (case fromHexChar p of
        None \<Rightarrow> None
      | Some a \<Rightarrow>
          (case fromHexChar q of
             None \<Rightarrow> None
           | Some b \<Rightarrow>
               (case DecodeString src of
                  None \<Rightarrow> None
                | Some dst \<Rightarrow> Some ((push_bit 4 a OR b) # dst))))"

subsection \<open>Package trace of OpenTelemetry\<close>

text \<open>
  \<^verbatim>\<open>TraceID\<close> is \<^verbatim>\<open>[16]byte\<close> and \<^verbatim>\<open>SpanID\<close> is \<^verbatim>\<open>[8]byte\<close>: lists of bytes, of length
  16 and 8. Their zero values are all zero bytes; an identifier is valid when it is not
  the zero value. \<^verbatim>\<open>String()\<close> is the lower-case hex form.
\<close>

type_synonym TraceID = "byte list"
type_synonym SpanID = "byte list"

definition nilTraceID :: TraceID where
  "nilTraceID = replicate 16 0"

definition nilSpanID :: SpanID where
  "nilSpanID = replicate 8 0"

definition TraceID_IsValid :: "TraceID \<Rightarrow> bool" where
  "TraceID_IsValid t = (t \<noteq> nilTraceID)"

definition SpanID_IsValid :: "SpanID \<Rightarrow> bool" where
  "SpanID_IsValid s = (s \<noteq> nilSpanID)"

definition TraceID_String :: "TraceID \<Rightarrow> string" where
  "TraceID_String t = EncodeToString t"

definition SpanID_String :: "SpanID \<Rightarrow> string" where
  "SpanID_String s = EncodeToString s"

datatype HexError = errInvalidHexID | errInvalidTraceIDLength | errNilTraceID
  | errInvalidSpanIDLength | errNilSpanID | errHexDecode

text \<open>\<^verbatim>\<open>decodeHex\<close>: every character must be \<^verbatim>\<open>'0'..'9'\<close> or \<^verbatim>\<open>'a'..'f'\<close>; then the
  string is decoded with \<^verbatim>\<open>hex.DecodeString\<close>.\<close>

definition isLowerHex :: "char \<Rightarrow> bool" where
  "isLowerHex r = (let c = (of_char r :: nat) in (97 \<le> c \<and> c \<le> 102) \<or> (48 \<le> c \<and> c \<le> 57))"

definition decodeHex :: "string \<Rightarrow> HexError + byte list" where
  "decodeHex h =
     (if \<not> list_all isLowerHex h then Inl errInvalidHexID
      else case DecodeString h of
             None \<Rightarrow> Inl errHexDecode
           | Some decoded \<Rightarrow> Inr decoded)"

definition TraceIDFromHex :: "string \<Rightarrow> HexError + TraceID" where
  "TraceIDFromHex h =
     (if length h \<noteq> 32 then Inl errInvalidTraceIDLength
      else case decodeHex h of
             Inl err \<Rightarrow> Inl err
           | Inr t \<Rightarrow> if \<not> TraceID_IsValid t then Inl errNilTraceID else Inr t)"

definition SpanIDFromHex :: "string \<Rightarrow> HexError + SpanID" where
  "SpanIDFromHex h =
     (if length h \<noteq> 16 then Inl errInvalidSpanIDLength
      else case decodeHex h of
             Inl err \<Rightarrow> Inl err
           | Inr s \<Rightarrow> if \<not> SpanID_IsValid s then Inl errNilSpanID else Inr s)"

text \<open>
  \<^verbatim>\<open>SpanContextConfig\<close> and \<^verbatim>\<open>SpanContext\<close>. \<^verbatim>\<open>NewSpanContext\<close> copies the fields of the
  configuration. The fields of a span context are read through its methods
  \<^verbatim>\<open>TraceID()\<close>, \<^verbatim>\<open>SpanID()\<close>, ..., written \<open>sc_TraceID\<close>, \<open>sc_SpanID\<close>, ... here. The trace state is a list of key/value members; the program never
  writes it.
\<close>

record SpanContextConfig =
  TraceID :: TraceID
  SpanID :: SpanID
  TraceFlags :: byte
  TraceState :: "(string \<times> string) list"
  Remote :: bool

record SpanContext =
  sc_TraceID :: TraceID
  sc_SpanID :: SpanID
  sc_TraceFlags :: byte
  sc_TraceState :: "(string \<times> string) list"
  sc_Remote :: bool

definition FlagsSampled :: byte where
  "FlagsSampled = 1"

definition zeroSpanContextConfig :: SpanContextConfig where
  "zeroSpanContextConfig =
     \<lparr>TraceID = nilTraceID, SpanID = nilSpanID, TraceFlags = 0, TraceState = [], Remote = False\<rparr>"

definition NewSpanContext :: "SpanContextConfig \<Rightarrow> SpanContext" where
  "NewSpanContext config =
     \<lparr>sc_TraceID = TraceID config, sc_SpanID = SpanID config,
      sc_TraceFlags = TraceFlags config, sc_TraceState = TraceState config,
      sc_Remote = Remote config\<rparr>"

definition IsSampled :: "SpanContext \<Rightarrow> bool" where
  "IsSampled sc = (sc_TraceFlags sc AND FlagsSampled = FlagsSampled)"

definition IsValid :: "SpanContext \<Rightarrow> bool" where
  "IsValid sc = (TraceID_IsValid (sc_TraceID sc) \<and> SpanID_IsValid (sc_SpanID sc))"

definition WithRemote :: "SpanContext \<Rightarrow> bool \<Rightarrow> SpanContext" where
  "WithRemote sc r = sc\<lparr>sc_Remote := r\<rparr>"

text \<open>
  The ambient context, as far as the program reads and writes it: the entry under the
  current-span key, and whatever else the context holds. A context with no span answers
  \<^verbatim>\<open>SpanFromContext\<close> with the no-op span, whose span context is the zero value.
\<close>

datatype Span = noopSpan | nonRecordingSpan SpanContext

record Context =
  currentSpan :: "Span option"
  otherValues :: "(string \<times> string) list"

definition SpanFromContext :: "Context \<Rightarrow> Span" where
  "SpanFromContext ctx = (case currentSpan ctx of None \<Rightarrow> noopSpan | Some span \<Rightarrow> span)"

definition empty :: SpanContext where
  "empty = \<lparr>sc_TraceID = nilTraceID, sc_SpanID = nilSpanID, sc_TraceFlags = 0,
     sc_TraceState = [], sc_Remote = False\<rparr>"

fun Span_SpanContext :: "Span \<Rightarrow> SpanContext" where
  "Span_SpanContext noopSpan = empty"
| "Span_SpanContext (nonRecordingSpan sc) = sc"

definition ContextWithRemoteSpanContext :: "Context \<Rightarrow> SpanContext \<Rightarrow> Context" where
  "ContextWithRemoteSpanContext parent rsc =
     parent\<lparr>currentSpan := Some (nonRecordingSpan (WithRemote rsc True))\<rparr>"

text \<open>The carrier, as \<^verbatim>\<open>propagation.MapCarrier\<close> implements it: a map from keys to
  values, where a missing key reads as the empty string.\<close>

type_synonym TextMapCarrier = "string \<rightharpoonup> string"

definition Get :: "TextMapCarrier \<Rightarrow> string \<Rightarrow> string" where
  "Get carrier key = (case carrier key of None \<Rightarrow> [] | Some v \<Rightarrow> v)"

definition Set_carrier :: "TextMapCarrier \<Rightarrow> string \<Rightarrow> string \<Rightarrow> TextMapCarrier" where
  "Set_carrier carrier key v = carrier(key \<mapsto> v)"

subsection \<open>The propagator\<close>

definition traceIDHeaderKey :: string where
  "traceIDHeaderKey = ''x-datadog-trace-id''"

definition parentIDHeaderKey :: string where
  "parentIDHeaderKey = ''x-datadog-parent-id''"

definition priorityHeaderKey :: string where
  "priorityHeaderKey = ''x-datadog-sampling-priority''"

definition notSampled :: string where
  "notSampled = ''0''"

definition isSampled :: string where
  "isSampled = ''1''"

datatype error = errMalformedTraceID | errMalformedSpanID | errInvalidTraceIDHeader
  | errInvalidSpanIDHeader | errInvalidSamplingPriorityHeader

text \<open>
  \<^verbatim>\<open>
  func convertOTtoDD(id string) string {
      if len(id) < 16 { return "" }
      if len(id) > 16 { id = id[16:] }
      intValue, err := strconv.ParseUint(id, 16, 64)
      if err != nil { return "" }
      return strconv.FormatUint(intValue, 10)
  }
  \<close>
  The slice \<^verbatim>\<open>id[16:]\<close> is the string without its first 16 bytes. The parameter
  \<^verbatim>\<open>id\<close> is written \<open>ident\<close>.
\<close>

definition convertOTtoDD :: "string \<Rightarrow> string" where
  "convertOTtoDD ident =
     (if length ident < 16 then []
      else
        (let ident = (if length ident > 16 then drop 16 ident else ident)
         in case ParseUint ident 16 64 of
              Inl err \<Rightarrow> []
            | Inr intValue \<Rightarrow> FormatUint intValue 10))"

text \<open>
  \<^verbatim>\<open>
  func convertDDtoOT(id string) (string, bool) {
      u, err := strconv.ParseUint(id, 10, 64)
      if err != nil { return "", false }
      return strconv.FormatUint(u, 16), true
  }
  \<close>
\<close>

definition convertDDtoOT :: "string \<Rightarrow> string \<times> bool" where
  "convertDDtoOT ident =
     (case ParseUint ident 10 64 of
        Inl err \<Rightarrow> ([], False)
      | Inr u \<Rightarrow> (FormatUint u 16, True))"

text \<open>
  The identifier steps of \<^verbatim>\<open>extract\<close>, lines 95 to 104 and 110 to 119 of the source: a
  non-empty hex string shorter than the width is padded, then handed to
  \<^verbatim>\<open>TraceIDFromHex\<close> (\<^verbatim>\<open>SpanIDFromHex\<close>); an empty one leaves the configuration as it
  is. \<open>None\<close> is the early return with the invalid-header error.
\<close>

definition padTraceID :: "string \<Rightarrow> string" where
  "padTraceID traceID = (if length traceID < 32 then Sprintf_0s 32 traceID else traceID)"

definition padSpanID :: "string \<Rightarrow> string" where
  "padSpanID spanID = (if length spanID < 16 then Sprintf_0s 16 spanID else spanID)"

definition setTraceID :: "SpanContextConfig \<Rightarrow> string \<Rightarrow> SpanContextConfig option" where
  "setTraceID scc traceID =
     (if traceID \<noteq> [] then
        (case TraceIDFromHex (padTraceID traceID) of
           Inl err \<Rightarrow> None
         | Inr t \<Rightarrow> Some (scc\<lparr>TraceID := t\<rparr>))
      else Some scc)"

definition setSpanID :: "SpanContextConfig \<Rightarrow> string \<Rightarrow> SpanContextConfig option" where
  "setSpanID scc spanID =
     (if spanID \<noteq> [] then
        (case SpanIDFromHex (padSpanID spanID) of
           Inl err \<Rightarrow> None
         | Inr s \<Rightarrow> Some (scc\<lparr>SpanID := s\<rparr>))
      else Some scc)"

text \<open>
  \<^verbatim>\<open>extract(traceID, spanID, sampled string) (trace.SpanContext, error)\<close>: the pair of
  the span context and the error, \<open>None\<close> for \<^verbatim>\<open>nil\<close>. The steps run in the order of the
  source and each early return is a branch. The function is written \<open>extract_dd\<close>, its
  own name being a command of Isabelle.
\<close>

definition extract_dd :: "string \<Rightarrow> string \<Rightarrow> string \<Rightarrow> SpanContext \<times> error option" where
  "extract_dd traceID spanID sampled =
     (let scc = zeroSpanContextConfig;
          (traceID, ok) = convertDDtoOT traceID
      in if \<not> ok then (empty, Some errMalformedTraceID)
         else case setTraceID scc traceID of
           None \<Rightarrow> (empty, Some errInvalidTraceIDHeader)
         | Some scc \<Rightarrow>
             (let (spanID, ok) = convertDDtoOT spanID
              in if \<not> ok then (empty, Some errMalformedSpanID)
                 else case setSpanID scc spanID of
                   None \<Rightarrow> (empty, Some errInvalidSpanIDHeader)
                 | Some scc \<Rightarrow>
                     (case Atoi sampled of
                        Inl err \<Rightarrow> (empty, Some errInvalidSamplingPriorityHeader)
                      | Inr sampledInt \<Rightarrow>
                          (let scc = (if sampledInt \<ge> 1 then scc\<lparr>TraceFlags := FlagsSampled\<rparr>
                                      else scc)
                           in (NewSpanContext scc, None)))))"

text \<open>
  \<^verbatim>\<open>Inject\<close> returns the carrier after its writes. Both early returns leave it as it
  was.
\<close>

definition Inject :: "Context \<Rightarrow> TextMapCarrier \<Rightarrow> TextMapCarrier" where
  "Inject ctx carrier =
     (let sc = Span_SpanContext (SpanFromContext ctx)
      in if \<not> TraceID_IsValid (sc_TraceID sc) \<or> \<not> SpanID_IsValid (sc_SpanID sc) then carrier
         else
           (let traceID = TraceID_String (sc_TraceID sc);
                parentID = SpanID_String (sc_SpanID sc)
            in if traceID = [] \<or> parentID = [] then carrier
               else
                 (let samplingFlag = (if IsSampled sc then isSampled else notSampled);
                      carrier = Set_carrier carrier traceIDHeaderKey (convertOTtoDD traceID);
                      carrier = Set_carrier carrier parentIDHeaderKey (convertOTtoDD parentID);
                      carrier = Set_carrier carrier priorityHeaderKey samplingFlag
                  in carrier)))"

definition Extract :: "Context \<Rightarrow> TextMapCarrier \<Rightarrow> Context" where
  "Extract ctx carrier =
     (let traceID = Get carrier traceIDHeaderKey;
          spanID = Get carrier parentIDHeaderKey;
          sampled = Get carrier priorityHeaderKey;
          (sc, err) = extract_dd traceID spanID sampled
      in if err \<noteq> None \<or> \<not> IsValid sc then ctx
         else ContextWithRemoteSpanContext ctx sc)"

definition Fields :: "string list" where
  "Fields = [traceIDHeaderKey, parentIDHeaderKey, priorityHeaderKey]"

subsection \<open>The value of a digit string\<close>

text \<open>
  What the loop of \<^verbatim>\<open>ParseUint\<close> computes when nothing overflows: the value of the
  digits read so far, on unbounded naturals. It states what the loop on words returns
  (\<open>parseDigits_strVal\<close> below).
\<close>

fun strVal :: "nat \<Rightarrow> nat \<Rightarrow> string \<Rightarrow> nat option" where
  "strVal b n [] = Some n"
| "strVal b n (c # cs) =
     (case digitVal c of
        None \<Rightarrow> None
      | Some d \<Rightarrow> if d \<ge> b then None else strVal b (n * b + d) cs)"


subsection \<open>The bytes a hex string denotes\<close>

text \<open>The result of \<^verbatim>\<open>hex.DecodeString\<close> where it succeeds; it names the identifier that
  \<^verbatim>\<open>TraceIDFromHex\<close> and \<^verbatim>\<open>SpanIDFromHex\<close> build from a well-formed string.\<close>

definition hexBytes :: "string \<Rightarrow> byte list" where
  "hexBytes s = (case DecodeString s of None \<Rightarrow> [] | Some bs \<Rightarrow> bs)"


subsection \<open>A 64-bit value as 16 hex characters\<close>

text \<open>
  The fixed-width rendering the round-trip property speaks of, \<^verbatim>\<open>fmt.Sprintf("%016x", v)\<close>:
  the lower-case hex digits of \<open>v\<close>, padded with zeros on the left to 16 characters.
\<close>

definition hex16 :: "uint64 \<Rightarrow> string" where
  "hex16 v = Sprintf_0s 16 (FormatUint v 16)"

subsection \<open>Trace identifiers whose low half is zero\<close>

text \<open>
  A span context whose trace identifier has a non-zero high half (the first 8 bytes) and
  an all-zero low half (the last 8 bytes), with a valid span identifier; both
  identifiers of their fixed lengths.
\<close>

definition lowHalfZero :: "SpanContext \<Rightarrow> bool" where
  "lowHalfZero sc =
     (length (sc_TraceID sc) = 16 \<and> take 8 (sc_TraceID sc) \<noteq> replicate 8 0
      \<and> drop 8 (sc_TraceID sc) = replicate 8 0
      \<and> length (sc_SpanID sc) = 8 \<and> SpanID_IsValid (sc_SpanID sc))"

section \<open>Properties of the library functions\<close>

subsection \<open>Formatting and parsing numbers\<close>

lemma upt_36:
  "[0..<36] = [0, 1, 2, 3, 4, 5, 6, 7, 8, 9, 10, 11, 12, 13, 14, 15, 16, 17, 18, 19, 20, 21, 22,
     23, 24, 25, 26, 27, 28, 29, 30, 31, 32, 33, 34, 35 :: nat]"
  by (simp add: upt_rec)

lemma digitVal_digits: "d < 36 \<Longrightarrow> digitVal (digits ! d) = Some d"
proof -
  assume "d < 36"
  then have "d \<in> set [0..<36]" by simp
  then show ?thesis
    unfolding upt_36
    by (auto simp: digits_def digitVal_def lower_def)
qed

lemma formatBits_step:
  "2 \<le> b \<Longrightarrow> b \<le> u \<Longrightarrow> formatBits u b a = formatBits (u div b) b (digits ! (u mod b) # a)"
  by (subst formatBits.simps) (simp add: minus_div_mult_eq_mod)

lemma formatBits_last: "u < b \<Longrightarrow> formatBits u b a = digits ! u # a"
  by (subst formatBits.simps) simp

lemma formatBits_acc: "formatBits u b a = formatBits u b [] @ a"
proof (induction u arbitrary: a rule: less_induct)
  case (less u)
  show ?case
  proof (cases "2 \<le> b \<and> b \<le> u")
    case True
    then have lt: "u div b < u" by simp
    have "formatBits u b a = formatBits (u div b) b (digits ! (u mod b) # a)"
      using True by (simp add: formatBits_step)
    also have "\<dots> = formatBits (u div b) b [] @ (digits ! (u mod b) # a)"
      by (rule less.IH [OF lt])
    also have "\<dots> = (formatBits (u div b) b [] @ [digits ! (u mod b)]) @ a"
      by simp
    also have "formatBits (u div b) b [] @ [digits ! (u mod b)] = formatBits (u div b) b [digits ! (u mod b)]"
      by (rule less.IH [OF lt, symmetric])
    also have "\<dots> = formatBits u b []"
      using True by (simp add: formatBits_step)
    finally show ?thesis .
  next
    case False
    then have "formatBits u b a' = digits ! u # a'" for a'
      by (subst formatBits.simps) auto
    then show ?thesis by simp
  qed
qed

lemma formatBits_rec:
  "2 \<le> b \<Longrightarrow> b \<le> u \<Longrightarrow> formatBits u b [] = formatBits (u div b) b [] @ [digits ! (u mod b)]"
  by (simp add: formatBits_step formatBits_acc [of _ _ "[_]"])

lemma strVal_append:
  "strVal b n (xs @ ys) = (case strVal b n xs of None \<Rightarrow> None | Some m \<Rightarrow> strVal b m ys)"
  by (induction xs arbitrary: n) (auto split: option.splits)

lemma strVal_formatBits:
  assumes b: "2 \<le> b" "b \<le> 36"
  shows "strVal b 0 (formatBits u b []) = Some u"
proof (induction u rule: less_induct)
  case (less u)
  show ?case
  proof (cases "b \<le> u")
    case True
    then have lt: "u div b < u" using b by simp
    have d: "digitVal (digits ! (u mod b)) = Some (u mod b)"
      using b by (intro digitVal_digits) (simp add: less_le_trans [OF mod_less_divisor])
    have "\<not> b \<le> u mod b" using b by (simp add: not_le)
    then show ?thesis
      using True b by (simp add: formatBits_rec strVal_append less.IH [OF lt] d)
  next
    case False
    then have "digitVal (digits ! u) = Some u"
      using b by (intro digitVal_digits) simp
    then show ?thesis using False by (simp add: formatBits_last)
  qed
qed

lemma strVal_mono: "strVal b n cs = Some m \<Longrightarrow> n \<le> m"
proof (induction cs arbitrary: n)
  case Nil
  then show ?case by simp
next
  case (Cons c cs)
  then obtain d where d: "digitVal c = Some d" "d < b" "strVal b (n * b + d) cs = Some m"
    by (auto split: option.splits if_splits)
  then have "n * b + d \<le> m" using Cons.IH by blast
  moreover have "0 < b" using d by simp
  then have "n \<le> n * b" by simp
  ultimately show ?case by linarith
qed

lemma strVal_zeros: "2 \<le> b \<Longrightarrow> strVal b 0 (replicate k CHR ''0'' @ s) = strVal b 0 s"
  by (induction k) (auto simp: digitVal_def)

lemma length_formatBits_le:
  "u < b ^ k \<Longrightarrow> 0 < k \<Longrightarrow> length (formatBits u b []) \<le> k"
proof (induction u arbitrary: k rule: less_induct)
  case (less u)
  show ?case
  proof (cases "2 \<le> b \<and> b \<le> u")
    case True
    then have lt: "u div b < u" by simp
    from True less.prems have "1 < k"
      by (metis One_nat_def Suc_lessI not_less power_one_right)
    then obtain k' where k: "k = Suc k'" "0 < k'"
      by (cases k) auto
    have "u div b < b ^ k'"
      using less.prems(1) True unfolding k
      by (simp add: less_mult_imp_div_less mult.commute)
    then have "length (formatBits (u div b) b []) \<le> k'"
      using less.IH [OF lt] k by blast
    then show ?thesis using True k by (simp add: formatBits_rec)
  next
    case False
    then have "formatBits u b [] = [digits ! u]"
      by (subst formatBits.simps) auto
    then show ?thesis using less.prems by (simp add: Suc_leI)
  qed
qed

lemma formatBits_nonempty: "formatBits u b [] \<noteq> []"
proof (cases "2 \<le> b \<and> b \<le> u")
  case True
  then show ?thesis by (simp add: formatBits_rec)
next
  case False
  then have "formatBits u b [] = [digits ! u]"
    by (subst formatBits.simps) auto
  then show ?thesis by simp
qed

lemma unat_of_nat64: "b < 2 ^ 64 \<Longrightarrow> unat (of_nat b :: 64 word) = b"
  by (simp add: unat_of_nat)

lemma unat_max64: "unat (- 1 :: 64 word) = 2 ^ 64 - 1"
  by (simp add: unsigned_minus_1_eq_mask mask_eq_exp_minus_1)

lemma unat_cutoff:
  assumes "2 \<le> b" "b \<le> 36"
  shows "unat ((- 1) div of_nat b + 1 :: 64 word) = (2 ^ 64 - 1) div b + 1"
proof -
  have ub: "unat (of_nat b :: 64 word) = b"
    using assms by (intro unat_of_nat64) simp
  have d: "unat ((- 1) div of_nat b :: 64 word) = (2 ^ 64 - 1) div b"
    by (simp only: unat_div ub unat_max64)
  have "(2 ^ 64 - 1) div b \<le> ((2::nat) ^ 64 - 1) div 2"
    using assms by (intro div_le_mono2) simp_all
  then have "(2 ^ 64 - 1) div b + 1 < (2::nat) ^ 64"
    by simp
  then have "unat ((- 1) div of_nat b :: 64 word) + unat (1 :: 64 word) < 2 ^ LENGTH(64)"
    using d by simp
  then have "unat ((- 1) div of_nat b + 1 :: 64 word) = unat ((- 1) div of_nat b :: 64 word) + unat (1 :: 64 word)"
    by (rule unat_add_lem [THEN iffD1])
  then show ?thesis
    using d by simp
qed

lemma parseDigits_strVal:
  assumes b: "2 \<le> b" "b \<le> 36"
  shows "strVal b (unat n) cs = Some m \<Longrightarrow> m < 2 ^ 64 \<Longrightarrow>
    parseDigits b ((- 1) div of_nat b + 1) (- 1) n cs = Inr (of_nat m)"
proof (induction cs arbitrary: n)
  case Nil
  then have "m = unat n" by simp
  then show ?case by simp
next
  case (Cons c cs)
  from Cons.prems(1) obtain d where d: "digitVal c = Some d" "d < b"
    and rest: "strVal b (unat n * b + d) cs = Some m"
    by (auto split: option.splits if_splits)
  have le: "unat n * b + d \<le> m"
    using rest by (rule strVal_mono)
  then have lt: "unat n * b + d < 2 ^ 64"
    using Cons.prems(2) by simp
  have ub: "unat (of_nat b :: 64 word) = b"
    using b by (intro unat_of_nat64) simp
  have ud: "unat (of_nat d :: 64 word) = d"
    using b d by (intro unat_of_nat64) simp
  have "unat n * b < 2 ^ 64" using lt by simp
  then have "unat n \<le> (2 ^ 64 - 1) div b"
    using b by (simp add: less_eq_div_iff_mult_less_eq)
  then have c1: "\<not> (- 1) div of_nat b + 1 \<le> n"
    using b by (simp add: word_le_nat_alt unat_cutoff)
  have "unat n * unat (of_nat b :: 64 word) < 2 ^ LENGTH(64)"
    using lt ub by simp
  then have "unat (n * of_nat b) = unat n * unat (of_nat b :: 64 word)"
    by (rule unat_mult_lem [THEN iffD1])
  then have um: "unat (n * of_nat b) = unat n * b"
    by (simp only: ub)
  have "unat (n * of_nat b) + unat (of_nat d :: 64 word) < 2 ^ LENGTH(64)"
    using lt um ud by simp
  then have "unat (n * of_nat b + of_nat d) = unat (n * of_nat b) + unat (of_nat d :: 64 word)"
    by (rule unat_add_lem [THEN iffD1])
  then have ua: "unat (n * of_nat b + of_nat d) = unat n * b + d"
    by (simp only: um ud)
  have c2: "\<not> n * of_nat b + of_nat d < n * of_nat b"
    by (simp add: word_less_nat_alt ua um)
  have c3: "\<not> n * of_nat b + of_nat d > (- 1 :: 64 word)"
    by (simp add: word_less_nat_alt unat_max64 ua) (use lt in simp)
  have "parseDigits b ((- 1) div of_nat b + 1) (- 1) (n * of_nat b + of_nat d) cs = Inr (of_nat m)"
  proof (rule Cons.IH)
    show "strVal b (unat (n * of_nat b + of_nat d)) cs = Some m"
      by (simp only: ua rest)
    show "m < 2 ^ 64" by (rule Cons.prems(2))
  qed
  then show ?case
    using d c1 c2 c3 by (simp add: Let_def)
qed

lemma maxVal64: "(18446744073709551615 :: 64 word) = - 1"
  by simp

lemma ParseUint_strVal:
  assumes "2 \<le> b" "b \<le> 36" "s \<noteq> []" "strVal b 0 s = Some m" "m < 2 ^ 64"
  shows "ParseUint s b 64 = Inr (of_nat m)"
proof -
  have "parseDigits b ((- 1) div of_nat b + 1) (- 1) 0 s = Inr (of_nat m)"
    using assms by (intro parseDigits_strVal) simp_all
  then show ?thesis
    using assms by (simp add: ParseUint_def maxVal64)
qed

lemma ParseUint_FormatUint:
  assumes "2 \<le> b" "b \<le> 36"
  shows "ParseUint (FormatUint u b) b 64 = Inr u"
proof -
  have "ParseUint (formatBits (unat u) b []) b 64 = Inr (of_nat (unat u))"
    using assms
    by (intro ParseUint_strVal strVal_formatBits formatBits_nonempty) (simp_all add: unsigned_less [where 'b = 64, simplified])
  then show ?thesis by (simp add: FormatUint_def)
qed


subsection \<open>Hex strings and identifiers\<close>

lemma upt_16: "[0..<16] = [0,1,2,3,4,5,6,7,8,9,10,11,12,13,14,15::nat]"
  by (simp add: upt_rec)

lemma isLowerHex_nth:
  assumes "isLowerHex c"
  shows "\<exists>i<16. c = hextable ! i"
proof -
  define k where "k = (of_char c :: nat)"
  have c: "c = char_of k" by (simp add: k_def)
  from assms have "(48 \<le> k \<and> k \<le> 57) \<or> (97 \<le> k \<and> k \<le> 102)"
    by (auto simp: isLowerHex_def Let_def k_def)
  then have "k = 48 \<or> k = 49 \<or> k = 50 \<or> k = 51 \<or> k = 52 \<or> k = 53 \<or> k = 54 \<or> k = 55 \<or> k = 56
      \<or> k = 57 \<or> k = 97 \<or> k = 98 \<or> k = 99 \<or> k = 100 \<or> k = 101 \<or> k = 102"
    by presburger
  then have "char_of k \<in> set hextable"
    unfolding hextable_def
    by (elim disjE; simp add: char_of_def bit_Suc_0_iff)
  then have "c \<in> set hextable" using c by simp
  then obtain i where "i < length hextable" "hextable ! i = c"
    by (auto simp only: in_set_conv_nth)
  moreover have "length hextable = 16" by (simp add: hextable_def)
  ultimately show ?thesis by auto
qed

lemma fromHexChar_hextable: "i < 16 \<Longrightarrow> fromHexChar (hextable ! i) = Some (of_nat i)"
proof -
  assume "i < 16"
  then have "i \<in> set [0..<16]" by simp
  then show ?thesis
    unfolding upt_16 by (auto simp: hextable_def fromHexChar_def)
qed

lemma isLowerHex_hextable: "i < 16 \<Longrightarrow> isLowerHex (hextable ! i)"
proof -
  assume "i < 16"
  then have "i \<in> set [0..<16]" by simp
  then show ?thesis
    unfolding upt_16 by (auto simp: hextable_def isLowerHex_def)
qed


lemma nibbles:
  assumes "i < 16" "j < 16"
  shows "unat (drop_bit 4 (push_bit 4 (of_nat i) OR of_nat j :: byte)) = i"
    and "unat ((push_bit 4 (of_nat i) OR of_nat j :: byte) AND 15) = j"
proof -
  have i: "i \<in> set [0..<16]" and j: "j \<in> set [0..<16]" using assms by simp_all
  show "unat (drop_bit 4 (push_bit 4 (of_nat i) OR of_nat j :: byte)) = i"
    using i j unfolding upt_16 by auto
  show "unat ((push_bit 4 (of_nat i) OR of_nat j :: byte) AND 15) = j"
    using i j unfolding upt_16 by auto
qed

lemma Decode_Encode:
  "list_all isLowerHex s \<Longrightarrow> even (length s) \<Longrightarrow>
     \<exists>bs. DecodeString s = Some bs \<and> EncodeToString bs = s \<and> 2 * length bs = length s"
proof (induction s rule: DecodeString.induct)
  case 1
  then show ?case by simp
next
  case (2 p)
  then show ?case by simp
next
  case (3 p q src)
  from "3.prems" have "isLowerHex p" "isLowerHex q" by simp_all
  then obtain i j where i: "i < 16" "p = hextable ! i" and j: "j < 16" "q = hextable ! j"
    using isLowerHex_nth by blast
  from "3.prems" have "list_all isLowerHex src" "even (length src)" by simp_all
  then obtain bs where bs: "DecodeString src = Some bs" "EncodeToString bs = src"
      "2 * length bs = length src"
    using "3.IH" i j by (auto simp: fromHexChar_hextable)
  have dec: "DecodeString (p # q # src) = Some ((push_bit 4 (of_nat i) OR of_nat j) # bs)"
    using i j bs by (simp add: fromHexChar_hextable)
  have enc: "EncodeToString ((push_bit 4 (of_nat i) OR of_nat j) # bs) = p # q # src"
    by (simp only: EncodeToString.simps nibbles [OF i(1) j(1)] bs i j)
  have "2 * length ((push_bit 4 (of_nat i) OR of_nat j :: byte) # bs) = length (p # q # src)"
    using bs by simp
  with dec enc show ?case by blast
qed

lemma Encode_zeros: "EncodeToString (replicate n 0) = replicate (2 * n) CHR ''0''"
  by (induction n) (simp_all add: hextable_def)

lemma formatBits_hex: "list_all isLowerHex (formatBits u 16 [])"
proof (induction u rule: less_induct)
  case (less u)
  show ?case
  proof (cases "16 \<le> u")
    case True
    then have "u div 16 < u" by simp
    then have "list_all isLowerHex (formatBits (u div 16) 16 [])" by (rule less.IH)
    moreover have "digits ! (u mod 16) = hextable ! (u mod 16)"
    proof -
      have "u mod 16 \<in> set [0..<16]" by simp
      then show ?thesis unfolding upt_16 by (auto simp: digits_def hextable_def)
    qed
    then have "isLowerHex (digits ! (u mod 16))"
      by (simp add: isLowerHex_hextable)
    ultimately show ?thesis using True by (simp add: formatBits_rec)
  next
    case False
    then have "u \<in> set [0..<16]" by simp
    then have "digits ! u = hextable ! u"
      unfolding upt_16 by (auto simp: digits_def hextable_def)
    then show ?thesis using False by (simp add: formatBits_last isLowerHex_hextable)
  qed
qed

lemma length_FormatUint_16: "length (FormatUint u 16) \<le> 16"
proof -
  have "unat u < 2 ^ 64" using unsigned_less [of u] by simp
  then have "unat u < 16 ^ 16" by simp
  then show ?thesis
    unfolding FormatUint_def by (intro length_formatBits_le) simp_all
qed

lemma FormatUint_nonempty: "FormatUint u b \<noteq> []"
  by (simp add: FormatUint_def formatBits_nonempty)

lemma padTraceID_eq:
  "padTraceID (FormatUint u 16) = replicate (32 - length (FormatUint u 16)) CHR ''0'' @ FormatUint u 16"
  using length_FormatUint_16 [of u] by (simp add: padTraceID_def Sprintf_0s_def)

lemma padSpanID_eq:
  "padSpanID (FormatUint u 16) = replicate (16 - length (FormatUint u 16)) CHR ''0'' @ FormatUint u 16"
  by (simp add: padSpanID_def Sprintf_0s_def)

lemma length_padTraceID: "length (padTraceID (FormatUint u 16)) = 32"
  using length_FormatUint_16 [of u] by (simp add: padTraceID_eq)

lemma length_padSpanID: "length (padSpanID (FormatUint u 16)) = 16"
  using length_FormatUint_16 [of u] by (simp add: padSpanID_eq)

lemma isLowerHex_zero: "isLowerHex CHR ''0''"
  by (simp add: isLowerHex_def)

lemma hex_zeros: "list_all isLowerHex (replicate k CHR ''0'')"
  by (induction k) (simp_all add: isLowerHex_zero)

lemma hex_padded: "list_all isLowerHex (replicate k CHR ''0'' @ FormatUint u 16)"
  by (simp add: FormatUint_def formatBits_hex hex_zeros)

lemma strVal_padded: "strVal 16 0 (replicate k CHR ''0'' @ FormatUint u 16) = Some (unat u)"
  by (simp add: strVal_zeros FormatUint_def strVal_formatBits)

lemma strVal_all_zeros: "strVal 16 0 (replicate k CHR ''0'') = Some 0"
  using strVal_zeros [of 16 k "[]"] by simp

lemma padded_zeros_iff:
  "replicate k CHR ''0'' @ FormatUint u 16 = replicate n CHR ''0'' \<Longrightarrow> u = 0"
proof -
  assume "replicate k CHR ''0'' @ FormatUint u 16 = replicate n CHR ''0''"
  then have "strVal 16 0 (replicate k CHR ''0'' @ FormatUint u 16) = strVal 16 0 (replicate n CHR ''0'')"
    by simp
  then have "unat u = 0" by (simp only: strVal_padded strVal_all_zeros option.inject)
  then show ?thesis by (simp add: unat_eq_0)
qed

lemma Decode_zeros: "DecodeString (replicate (2 * n) CHR ''0'') = Some (replicate n 0)"
  by (induction n) (simp_all add: fromHexChar_def)

lemma FormatUint_0: "FormatUint 0 16 = ''0''"
  by (simp add: FormatUint_def formatBits.simps digits_def)

lemma decodeHex_padded:
  assumes "even (k + length (FormatUint u 16))"
  shows "decodeHex (replicate k CHR ''0'' @ FormatUint u 16)
           = Inr (hexBytes (replicate k CHR ''0'' @ FormatUint u 16))"
    and "EncodeToString (hexBytes (replicate k CHR ''0'' @ FormatUint u 16))
           = replicate k CHR ''0'' @ FormatUint u 16"
    and "2 * length (hexBytes (replicate k CHR ''0'' @ FormatUint u 16)) = k + length (FormatUint u 16)"
proof -
  let ?s = "replicate k CHR ''0'' @ FormatUint u 16"
  have "list_all isLowerHex ?s" by (rule hex_padded)
  moreover have "even (length ?s)" using assms by simp
  ultimately obtain bs where bs: "DecodeString ?s = Some bs" "EncodeToString bs = ?s"
      "2 * length bs = length ?s"
    using Decode_Encode by blast
  then have hb: "hexBytes ?s = bs" by (simp add: hexBytes_def)
  show "decodeHex ?s = Inr (hexBytes ?s)"
    using bs hb hex_padded [of k u] by (simp add: decodeHex_def)
  show "EncodeToString (hexBytes ?s) = ?s" using bs hb by simp
  show "2 * length (hexBytes ?s) = k + length (FormatUint u 16)" using bs hb by simp
qed

lemma TraceIDFromHex_padded:
  "TraceIDFromHex (padTraceID (FormatUint u 16)) =
     (if u = 0 then Inl errNilTraceID else Inr (hexBytes (padTraceID (FormatUint u 16))))"
proof -
  let ?k = "32 - length (FormatUint u 16)"
  let ?s = "replicate ?k CHR ''0'' @ FormatUint u 16"
  have s: "padTraceID (FormatUint u 16) = ?s" by (rule padTraceID_eq)
  have len: "length ?s = 32" using length_padTraceID [of u] s by simp
  then have ev: "even (?k + length (FormatUint u 16))" by simp
  note d = decodeHex_padded [OF ev]
  show ?thesis
  proof (cases "u = 0")
    case True
    have "replicate 31 CHR ''0'' @ ''0'' = replicate (Suc 31) CHR ''0''"
      by (simp only: replicate_append_same replicate_Suc)
    then have "padTraceID (FormatUint 0 16) = replicate 32 CHR ''0''"
      by (simp add: padTraceID_def FormatUint_0 Sprintf_0s_def)
    moreover have "DecodeString (replicate 32 CHR ''0'') = Some (replicate 16 0)"
      using Decode_zeros [of 16] by simp
    ultimately show ?thesis using True
      by (simp add: TraceIDFromHex_def decodeHex_def TraceID_IsValid_def nilTraceID_def hex_zeros)
  next
    case False
    have "hexBytes ?s \<noteq> nilTraceID"
    proof
      assume "hexBytes ?s = nilTraceID"
      then have "EncodeToString (hexBytes ?s) = replicate (2 * 16) CHR ''0''"
        by (simp only: nilTraceID_def Encode_zeros)
      then have "?s = replicate (2 * 16) CHR ''0''" by (simp only: d(2))
      then have "u = 0" by (rule padded_zeros_iff)
      with False show False by simp
    qed
    then show ?thesis
      using False len d(1) by (simp add: TraceIDFromHex_def s TraceID_IsValid_def)
  qed
qed


section \<open>Properties of the propagator\<close>

subsection \<open>Building the identifiers\<close>

lemma SpanIDFromHex_padded:
  "SpanIDFromHex (padSpanID (FormatUint u 16)) =
     (if u = 0 then Inl errNilSpanID else Inr (hexBytes (padSpanID (FormatUint u 16))))"
proof -
  let ?k = "16 - length (FormatUint u 16)"
  let ?s = "replicate ?k CHR ''0'' @ FormatUint u 16"
  have s: "padSpanID (FormatUint u 16) = ?s" by (rule padSpanID_eq)
  have len: "length ?s = 16" using length_padSpanID [of u] s by simp
  then have ev: "even (?k + length (FormatUint u 16))" by simp
  note d = decodeHex_padded [OF ev]
  show ?thesis
  proof (cases "u = 0")
    case True
    have "replicate 15 CHR ''0'' @ ''0'' = replicate (Suc 15) CHR ''0''"
      by (simp only: replicate_append_same replicate_Suc)
    then have "padSpanID (FormatUint 0 16) = replicate 16 CHR ''0''"
      by (simp add: padSpanID_def FormatUint_0 Sprintf_0s_def)
    moreover have "DecodeString (replicate 16 CHR ''0'') = Some (replicate 8 0)"
      using Decode_zeros [of 8] by simp
    ultimately show ?thesis using True
      by (simp add: SpanIDFromHex_def decodeHex_def SpanID_IsValid_def nilSpanID_def hex_zeros)
  next
    case False
    have "hexBytes ?s \<noteq> nilSpanID"
    proof
      assume "hexBytes ?s = nilSpanID"
      then have "EncodeToString (hexBytes ?s) = replicate (2 * 8) CHR ''0''"
        by (simp only: nilSpanID_def Encode_zeros)
      then have "?s = replicate (2 * 8) CHR ''0''" by (simp only: d(2))
      then have "u = 0" by (rule padded_zeros_iff)
      with False show False by simp
    qed
    then show ?thesis
      using False len d(1) by (simp add: SpanIDFromHex_def s SpanID_IsValid_def)
  qed
qed

lemma TraceID_String_padded:
  "TraceID_String (hexBytes (padTraceID (FormatUint u 16))) = padTraceID (FormatUint u 16)"
proof -
  have "even (32 - length (FormatUint u 16) + length (FormatUint u 16))"
    using length_FormatUint_16 [of u] by simp
  then show ?thesis
    unfolding TraceID_String_def padTraceID_eq by (rule decodeHex_padded(2))
qed

lemma SpanID_String_padded:
  "SpanID_String (hexBytes (padSpanID (FormatUint u 16))) = padSpanID (FormatUint u 16)"
proof -
  have "even (16 - length (FormatUint u 16) + length (FormatUint u 16))"
    using length_FormatUint_16 [of u] by simp
  then show ?thesis
    unfolding SpanID_String_def padSpanID_eq by (rule decodeHex_padded(2))
qed

lemma setTraceID_FormatUint:
  "setTraceID scc (FormatUint u 16) =
     (if u = 0 then None else Some (scc\<lparr>TraceID := hexBytes (padTraceID (FormatUint u 16))\<rparr>))"
  by (simp add: setTraceID_def FormatUint_nonempty TraceIDFromHex_padded)

lemma setSpanID_FormatUint:
  "setSpanID scc (FormatUint u 16) =
     (if u = 0 then None else Some (scc\<lparr>SpanID := hexBytes (padSpanID (FormatUint u 16))\<rparr>))"
  by (simp add: setSpanID_def FormatUint_nonempty SpanIDFromHex_padded)

text \<open>
  What \<^verbatim>\<open>extract\<close> returns, case by case: the identifier steps fail exactly on a text
  that does not parse or that parses to zero, and a successful result carries the
  identifiers denoted by the padded hex strings.
\<close>

lemma extract_dd_cases:
  "extract_dd traceID spanID sampled =
     (case ParseUint traceID 10 64 of
        Inl e \<Rightarrow> (empty, Some errMalformedTraceID)
      | Inr u \<Rightarrow>
          if u = 0 then (empty, Some errInvalidTraceIDHeader)
          else case ParseUint spanID 10 64 of
            Inl e \<Rightarrow> (empty, Some errMalformedSpanID)
          | Inr w \<Rightarrow>
              if w = 0 then (empty, Some errInvalidSpanIDHeader)
              else case Atoi sampled of
                Inl e \<Rightarrow> (empty, Some errInvalidSamplingPriorityHeader)
              | Inr n \<Rightarrow>
                  (\<lparr>sc_TraceID = hexBytes (padTraceID (FormatUint u 16)),
                    sc_SpanID = hexBytes (padSpanID (FormatUint w 16)),
                    sc_TraceFlags = (if n \<ge> 1 then FlagsSampled else 0),
                    sc_TraceState = [], sc_Remote = False\<rparr>, None))"
  by (simp add: extract_dd_def convertDDtoOT_def setTraceID_FormatUint setSpanID_FormatUint
      NewSpanContext_def zeroSpanContextConfig_def split: sum.splits)


subsection \<open>Evaluation and further facts\<close>

lemma replicate_numeral: "replicate (numeral k) x = x # replicate (pred_numeral k) x"
  by (simp add: numeral_eq_Suc)

text \<open>The definitions that evaluate the number functions on a concrete string.\<close>

lemmas strconv_eval = ParseUint_def digitVal_def lower_def word_le_nat_alt word_less_nat_alt
  FormatUint_def formatBits.simps digits_def

lemma EncodeToString_append:
  "EncodeToString (xs @ ys) = EncodeToString xs @ EncodeToString ys"
  by (induction xs) simp_all

lemma length_EncodeToString: "length (EncodeToString bs) = 2 * length bs"
  by (induction bs) simp_all

lemma ParseUint_zeros: "0 < k \<Longrightarrow> ParseUint (replicate k CHR ''0'') 16 64 = Inr 0"
  using ParseUint_strVal [of 16 "replicate k CHR ''0''" 0] by (simp add: strVal_all_zeros)

lemma FormatUint_0_10: "FormatUint 0 10 = ''0''"
  by (simp add: FormatUint_def formatBits.simps digits_def)

lemma ParseUint_0_10: "ParseUint ''0'' 10 64 = Inr 0"
  by (simp add: strconv_eval)

lemma TraceID_String_lowHalfZero:
  assumes "length t = 16" "drop 8 t = replicate 8 0"
  shows "drop 16 (TraceID_String t) = replicate 16 CHR ''0''" and "length (TraceID_String t) = 32"
proof -
  have "t = take 8 t @ replicate 8 0"
    using assms(2) append_take_drop_id [of 8 t] by simp
  then have "TraceID_String t = EncodeToString (take 8 t) @ EncodeToString (replicate 8 0)"
    unfolding TraceID_String_def by (metis EncodeToString_append)
  moreover have "length (EncodeToString (take 8 t)) = 16"
    using assms(1) by (simp add: length_EncodeToString)
  moreover have "EncodeToString (replicate 8 0) = replicate 16 CHR ''0''"
    using Encode_zeros [of 8] by simp
  ultimately show "drop 16 (TraceID_String t) = replicate 16 CHR ''0''" by simp
  show "length (TraceID_String t) = 32"
    using assms(1) by (simp add: TraceID_String_def length_EncodeToString)
qed

lemma convertOTtoDD_lowHalfZero:
  assumes "length t = 16" "drop 8 t = replicate 8 0"
  shows "convertOTtoDD (TraceID_String t) = ''0''"
  using TraceID_String_lowHalfZero [OF assms]
  by (simp add: convertOTtoDD_def ParseUint_zeros FormatUint_0_10)

lemma extract_dd_zero_trace: "extract_dd ''0'' spanID sampled = (empty, Some errInvalidTraceIDHeader)"
  by (simp add: extract_dd_cases ParseUint_0_10)

lemma Inject_lowHalfZero:
  assumes "lowHalfZero sc" "Span_SpanContext (SpanFromContext ctx) = sc"
  shows "Inject ctx carrier =
     carrier(traceIDHeaderKey \<mapsto> ''0'',
       parentIDHeaderKey \<mapsto> convertOTtoDD (SpanID_String (sc_SpanID sc)),
       priorityHeaderKey \<mapsto> (if IsSampled sc then isSampled else notSampled))"
proof -
  from assms(1) have t: "length (sc_TraceID sc) = 16" "drop 8 (sc_TraceID sc) = replicate 8 0"
    and t': "take 8 (sc_TraceID sc) \<noteq> replicate 8 0"
    and s: "length (sc_SpanID sc) = 8" "SpanID_IsValid (sc_SpanID sc)"
    by (simp_all add: lowHalfZero_def)
  have "sc_TraceID sc \<noteq> nilTraceID"
    using t' by (auto simp: nilTraceID_def)
  then have v: "TraceID_IsValid (sc_TraceID sc)" by (simp add: TraceID_IsValid_def)
  have n1: "TraceID_String (sc_TraceID sc) \<noteq> []"
    using TraceID_String_lowHalfZero(2) [OF t] by auto
  have "length (SpanID_String (sc_SpanID sc)) = 16"
    using s(1) by (simp add: SpanID_String_def length_EncodeToString)
  then have n2: "SpanID_String (sc_SpanID sc) \<noteq> []" by auto
  show ?thesis
    using v s(2) n1 n2 assms(2)
    by (simp add: Inject_def Let_def Set_carrier_def convertOTtoDD_lowHalfZero [OF t])
qed

lemma length_hex16: "length (hex16 v) = 16"
  using length_FormatUint_16 [of v] by (simp add: hex16_def Sprintf_0s_def)

lemma ParseUint_hex16: "ParseUint (hex16 v) 16 64 = Inr v"
proof -
  have "hex16 v \<noteq> []" using length_hex16 [of v] by auto
  moreover have "strVal 16 0 (hex16 v) = Some (unat v)"
    by (simp add: hex16_def Sprintf_0s_def strVal_padded)
  moreover have "unat v < 2 ^ 64" using unsigned_less [of v] by simp
  ultimately have "ParseUint (hex16 v) 16 64 = Inr (of_nat (unat v))"
    by (intro ParseUint_strVal) simp_all
  then show ?thesis by simp
qed

lemma Atoi_empty: "Atoi [] = Inl ErrSyntax"
  by (simp add: Atoi_def ParseInt10_def)

lemma ParseUint_small_trace: "ParseUint ''123456789'' 10 64 = Inr 123456789"
  by (simp add: strconv_eval)

lemma ParseUint_small_span: "ParseUint ''987654321'' 10 64 = Inr 987654321"
  by (simp add: strconv_eval)

lemma FormatUint_small_trace: "FormatUint 123456789 16 = ''75bcd15''"
  by (simp add: FormatUint_def formatBits.simps digits_def)

lemma FormatUint_small_span: "FormatUint 987654321 16 = ''3ade68b1''"
  by (simp add: FormatUint_def formatBits.simps digits_def)

lemmas hex_eval = replicate_numeral padTraceID_def padSpanID_def Sprintf_0s_def hexBytes_def
  fromHexChar_def

lemma hexBytes_small_trace:
  "hexBytes (padTraceID ''75bcd15'') = [0,0,0,0,0,0,0,0,0,0,0,0,0x07,0x5b,0xcd,0x15]"
  by (simp add: hex_eval)

lemma hexBytes_small_span:
  "hexBytes (padSpanID ''3ade68b1'') = [0,0,0,0,0x3a,0xde,0x68,0xb1]"
  by (simp add: hex_eval)

lemma ParseUint_19_zeros: "ParseUint ''0000000000000000000'' 10 64 = Inr 0"
  by (simp add: strconv_eval)

lemma ParseUint_dd_trace: "ParseUint ''8778793551513751462'' 10 64 = Inr 8778793551513751462"
  by (simp add: strconv_eval)

lemma Atoi_0: "Atoi ''0'' = Inr 0"
  by (simp add: Atoi_def)

lemma Atoi_1: "Atoi ''1'' = Inr 1"
  by (simp add: Atoi_def)

lemma small_trace_string:
  "TraceID_String (sc_TraceID (fst (extract_dd ''123456789'' ''987654321'' ''0'')))
     = ''000000000000000000000000075bcd15''"
proof -
  have "TraceID_String (sc_TraceID (fst (extract_dd ''123456789'' ''987654321'' ''0'')))
      = padTraceID (FormatUint 123456789 16)"
    by (simp add: extract_dd_cases ParseUint_small_trace ParseUint_small_span Atoi_0
        TraceID_String_padded)
  also have "\<dots> = ''000000000000000000000000075bcd15''"
    by (simp add: FormatUint_small_trace padTraceID_def Sprintf_0s_def replicate_numeral)
  finally show ?thesis .
qed

lemmas key_defs = traceIDHeaderKey_def parentIDHeaderKey_def priorityHeaderKey_def

lemma extract_dd_small_sampled:
  "extract_dd ''123456789'' ''987654321'' ''1'' =
     (\<lparr>sc_TraceID = [0,0,0,0,0,0,0,0,0,0,0,0,0x07,0x5b,0xcd,0x15],
       sc_SpanID = [0,0,0,0,0x3a,0xde,0x68,0xb1], sc_TraceFlags = 1, sc_TraceState = [],
       sc_Remote = False\<rparr>, None)"
  by (simp add: extract_dd_cases ParseUint_small_trace ParseUint_small_span Atoi_1
      FormatUint_small_trace FormatUint_small_span hexBytes_small_trace hexBytes_small_span
      FlagsSampled_def)

lemma length_hexBytes_padTraceID: "length (hexBytes (padTraceID (FormatUint u 16))) = 16"
proof -
  have "even (32 - length (FormatUint u 16) + length (FormatUint u 16))"
    using length_FormatUint_16 [of u] by simp
  from decodeHex_padded(3) [OF this] show ?thesis
    using length_FormatUint_16 [of u] by (simp add: padTraceID_eq)
qed

lemma length_hexBytes_padSpanID: "length (hexBytes (padSpanID (FormatUint u 16))) = 8"
proof -
  have "even (16 - length (FormatUint u 16) + length (FormatUint u 16))"
    using length_FormatUint_16 [of u] by simp
  from decodeHex_padded(3) [OF this] show ?thesis
    using length_FormatUint_16 [of u] by (simp add: padSpanID_eq)
qed

lemma valid_hexBytes_padTraceID:
  "u \<noteq> 0 \<Longrightarrow> TraceID_IsValid (hexBytes (padTraceID (FormatUint u 16)))"
  using TraceIDFromHex_padded [of u]
  by (auto simp: TraceIDFromHex_def split: if_splits sum.splits)

lemma valid_hexBytes_padSpanID:
  "u \<noteq> 0 \<Longrightarrow> SpanID_IsValid (hexBytes (padSpanID (FormatUint u 16)))"
  using SpanIDFromHex_padded [of u]
  by (auto simp: SpanIDFromHex_def split: if_splits sum.splits)

section \<open>The claims\<close>

subsection \<open>C1: what \<open>convertOTtoDD\<close> keeps of a long identifier\<close>

text \<open>
  C1 says that an identifier longer than 16 characters is encoded as its last 16
  characters are. The source comments say the same (only the last 16 characters are
  used), but the slice \<^verbatim>\<open>id[16:]\<close> drops the first 16 characters instead: the two agree
  only for a string of exactly 32 characters. A string of 17 characters is encoded as
  its last character alone, and not as its last 16 characters are.
\<close>

theorem convertOTtoDD_17_chars:
  "convertOTtoDD ''12345678901234567'' = ''7''
   \<and> convertOTtoDD ''2345678901234567'' = ''2541551402847782247''"
  by (simp add: convertOTtoDD_def strconv_eval)

subsection \<open>C2: decoding the empty string\<close>

text \<open>
  C2 says that \<open>convertDDtoOT\<close> applied to the empty string succeeds with an empty
  result. It does not: \<^verbatim>\<open>ParseUint\<close> refuses the empty string.
\<close>

theorem convertDDtoOT_empty_not_ok: "convertDDtoOT [] \<noteq> ([], True)"
  by (simp add: convertDDtoOT_def ParseUint_def)

text \<open>
  C2 as amended: decoding the empty string is a parse failure, the empty string together
  with \<open>False\<close>; and for every input the decoded string is empty exactly when the
  decoding failed, so no successful decoding yields an empty string.
\<close>

theorem convertDDtoOT_empty_fails:
  "convertDDtoOT [] = ([], False)
   \<and> (fst (convertDDtoOT s) = []) = (\<not> snd (convertDDtoOT s))"
  by (simp add: convertDDtoOT_def ParseUint_def FormatUint_nonempty split: sum.splits)

subsection \<open>C3: the sampling step\<close>

text \<open>
  C3: once both identifier steps of \<open>extract_dd\<close> have succeeded, the sampling step
  runs. An empty sampling text gives the zero span context and
  \<open>errInvalidSamplingPriorityHeader\<close>; so does every text that \<^verbatim>\<open>Atoi\<close> refuses; a
  parsed value of at least 1 sets the sampled flag and a value of 0 or less leaves it
  unset. The hypotheses are the two identifier steps as the function takes them; by
  \<open>extract_dd_cases\<close> they hold exactly when both texts parse to a non-zero number.
\<close>

theorem extract_sampling_step:
  assumes "convertDDtoOT traceID = (t, True)"
    and "setTraceID zeroSpanContextConfig t = Some scc1"
    and "convertDDtoOT spanID = (s, True)"
    and "setSpanID scc1 s = Some scc2"
  shows "extract_dd traceID spanID [] = (empty, Some errInvalidSamplingPriorityHeader)
    \<and> (case Atoi sampled of
          Inl e \<Rightarrow> extract_dd traceID spanID sampled = (empty, Some errInvalidSamplingPriorityHeader)
        | Inr n \<Rightarrow>
            extract_dd traceID spanID sampled =
              (NewSpanContext (if n \<ge> 1 then scc2\<lparr>TraceFlags := FlagsSampled\<rparr> else scc2), None)
            \<and> IsSampled (fst (extract_dd traceID spanID sampled)) = (n \<ge> 1))"
proof -
  have f: "TraceFlags scc2 = 0"
    using assms(2,4)
    by (auto simp: setTraceID_def setSpanID_def zeroSpanContextConfig_def
        split: if_splits sum.splits)
  show ?thesis
    using assms f
    by (simp add: extract_dd_def Atoi_empty NewSpanContext_def IsSampled_def FlagsSampled_def
        split: sum.splits)
qed

theorem extract_sampling_step_witness:
  "extract_dd ''123456789'' ''987654321'' [] = (empty, Some errInvalidSamplingPriorityHeader)
   \<and> extract_dd ''123456789'' ''987654321'' ''x'' = (empty, Some errInvalidSamplingPriorityHeader)
   \<and> IsSampled (fst (extract_dd ''123456789'' ''987654321'' ''1''))
   \<and> \<not> IsSampled (fst (extract_dd ''123456789'' ''987654321'' ''0''))
   \<and> \<not> IsSampled (fst (extract_dd ''123456789'' ''987654321'' ''-1''))"
proof -
  have a: "convertDDtoOT ''123456789'' = (''75bcd15'', True)"
    by (simp add: convertDDtoOT_def ParseUint_small_trace FormatUint_small_trace)
  have b: "setTraceID zeroSpanContextConfig ''75bcd15''
      = Some (zeroSpanContextConfig\<lparr>TraceID := hexBytes (padTraceID ''75bcd15'')\<rparr>)"
    using setTraceID_FormatUint [of zeroSpanContextConfig 123456789]
    by (simp add: FormatUint_small_trace)
  have c: "convertDDtoOT ''987654321'' = (''3ade68b1'', True)"
    by (simp add: convertDDtoOT_def ParseUint_small_span FormatUint_small_span)
  have d: "setSpanID (zeroSpanContextConfig\<lparr>TraceID := hexBytes (padTraceID ''75bcd15'')\<rparr>)
        ''3ade68b1''
      = Some (zeroSpanContextConfig\<lparr>TraceID := hexBytes (padTraceID ''75bcd15''),
          SpanID := hexBytes (padSpanID ''3ade68b1'')\<rparr>)"
    using setSpanID_FormatUint [of _ 987654321]
    by (simp add: FormatUint_small_span)
  note h = extract_sampling_step [OF a b c d]
  have x: "Atoi ''x'' = Inl ErrSyntax" and m: "Atoi ''-1'' = Inr (- 1)"
    by (simp_all add: Atoi_def)
  have 1: "extract_dd ''123456789'' ''987654321'' [] = (empty, Some errInvalidSamplingPriorityHeader)"
    using h [of "[]"] by blast
  have 2: "extract_dd ''123456789'' ''987654321'' ''x'' = (empty, Some errInvalidSamplingPriorityHeader)"
    using h [of "''x''"] by (simp add: x)
  have "IsSampled (fst (extract_dd ''123456789'' ''987654321'' ''1'')) = ((1::int) \<le> 1)"
    using h [of "''1''"] unfolding Atoi_1 sum.case by blast
  then have 3: "IsSampled (fst (extract_dd ''123456789'' ''987654321'' ''1''))"
    by simp
  have "IsSampled (fst (extract_dd ''123456789'' ''987654321'' ''0'')) = ((1::int) \<le> 0)"
    using h [of "''0''"] unfolding Atoi_0 sum.case by blast
  then have 4: "\<not> IsSampled (fst (extract_dd ''123456789'' ''987654321'' ''0''))"
    by simp
  have "IsSampled (fst (extract_dd ''123456789'' ''987654321'' ''-1'')) = ((1::int) \<le> - 1)"
    using h [of "''-1''"] unfolding m sum.case by blast
  then have 5: "\<not> IsSampled (fst (extract_dd ''123456789'' ''987654321'' ''-1''))"
    by simp
  from 1 2 3 4 5 show ?thesis by (simp only: simp_thms)
qed

subsection \<open>C4: the round trip of the identifier codec\<close>

text \<open>
  C4: for every 64-bit value \<open>v\<close>, its 16-character hex form is encoded by
  \<open>convertOTtoDD\<close> to the decimal digits of \<open>v\<close>; \<open>convertDDtoOT\<close> decodes them
  successfully to the hex digits of \<open>v\<close>, which parse back to \<open>v\<close> and, padded to 16
  characters, are the string the round trip started from.
\<close>

theorem codec_round_trip:
  "length (hex16 v) = 16
   \<and> convertOTtoDD (hex16 v) = FormatUint v 10
   \<and> convertDDtoOT (convertOTtoDD (hex16 v)) = (FormatUint v 16, True)
   \<and> ParseUint (fst (convertDDtoOT (convertOTtoDD (hex16 v)))) 16 64 = Inr v
   \<and> Sprintf_0s 16 (fst (convertDDtoOT (convertOTtoDD (hex16 v)))) = hex16 v"
proof -
  have a: "convertOTtoDD (hex16 v) = FormatUint v 10"
    by (simp add: convertOTtoDD_def length_hex16 ParseUint_hex16)
  have b: "convertDDtoOT (FormatUint v 10) = (FormatUint v 16, True)"
    by (simp add: convertDDtoOT_def ParseUint_FormatUint)
  have e: "Sprintf_0s 16 (FormatUint v 16) = hex16 v"
    by (simp add: hex16_def)
  show ?thesis
    by (simp add: a b length_hex16 ParseUint_FormatUint e)
qed

theorem codec_round_trip_witness:
  "convertOTtoDD ''e7c71ff0c2c95a9d'' = ''16701352862047361693''
   \<and> convertDDtoOT ''16701352862047361693'' = (''e7c71ff0c2c95a9d'', True)"
proof -
  have h: "hex16 16701352862047361693 = ''e7c71ff0c2c95a9d''"
    by (simp add: hex16_def Sprintf_0s_def FormatUint_def formatBits.simps digits_def)
  have d: "FormatUint 16701352862047361693 10 = ''16701352862047361693''"
    by (simp add: FormatUint_def formatBits.simps digits_def)
  have x: "FormatUint 16701352862047361693 16 = ''e7c71ff0c2c95a9d''"
    by (simp add: FormatUint_def formatBits.simps digits_def)
  have 1: "convertOTtoDD ''e7c71ff0c2c95a9d'' = ''16701352862047361693''"
    using codec_round_trip [of 16701352862047361693] unfolding h d x by blast
  have 2: "convertDDtoOT (convertOTtoDD ''e7c71ff0c2c95a9d'') = (''e7c71ff0c2c95a9d'', True)"
    using codec_round_trip [of 16701352862047361693] unfolding h d x by blast
  show ?thesis
    using 1 2 by (simp only: simp_thms)
qed

subsection \<open>C5: padding the decoded identifiers\<close>

text \<open>
  C5 says that the decimal string \<^verbatim>\<open>123456789\<close> decodes to the hex string \<^verbatim>\<open>075bcd15\<close>
  and gives the trace identifier \<^verbatim>\<open>00000000000000000000000000075bcd15\<close>, a string of
  34 characters. Neither is what the program computes: the decoded hex string has no
  leading zero, and the identifier has 32 characters.
\<close>

theorem padding_example_counterexample:
  "fst (convertDDtoOT ''123456789'') \<noteq> ''075bcd15''
   \<and> TraceID_String (sc_TraceID (fst (extract_dd ''123456789'' ''987654321'' ''0'')))
       \<noteq> ''00000000000000000000000000075bcd15''"
  by (simp add: small_trace_string convertDDtoOT_def ParseUint_small_trace
      FormatUint_small_trace)

text \<open>
  C5 as amended: for texts that parse as 64-bit numbers \<open>u\<close> and \<open>w\<close>, the hex form has
  at most 16 characters, and \<open>extract_dd\<close> builds the trace identifier from that hex
  form padded with zeros on the left to exactly 32 characters, the span identifier from
  the hex form padded to exactly 16; where the extraction succeeds, the identifiers it
  returns have these padded strings as their hex form. The decimal string
  \<^verbatim>\<open>123456789\<close> decodes to \<^verbatim>\<open>75bcd15\<close> and gives the trace identifier
  \<^verbatim>\<open>000000000000000000000000075bcd15\<close>.
\<close>

theorem extract_pads_identifiers:
  assumes "ParseUint traceID 10 64 = Inr u" and "ParseUint spanID 10 64 = Inr w"
  shows "length (FormatUint u 16) \<le> 16
    \<and> padTraceID (FormatUint u 16)
         = replicate (32 - length (FormatUint u 16)) CHR ''0'' @ FormatUint u 16
    \<and> length (padTraceID (FormatUint u 16)) = 32
    \<and> padSpanID (FormatUint w 16)
         = replicate (16 - length (FormatUint w 16)) CHR ''0'' @ FormatUint w 16
    \<and> length (padSpanID (FormatUint w 16)) = 16
    \<and> setTraceID scc (fst (convertDDtoOT traceID))
         = (case TraceIDFromHex (padTraceID (FormatUint u 16)) of
              Inl err \<Rightarrow> None | Inr t \<Rightarrow> Some (scc\<lparr>TraceID := t\<rparr>))
    \<and> setSpanID scc (fst (convertDDtoOT spanID))
         = (case SpanIDFromHex (padSpanID (FormatUint w 16)) of
              Inl err \<Rightarrow> None | Inr s \<Rightarrow> Some (scc\<lparr>SpanID := s\<rparr>))
    \<and> (snd (extract_dd traceID spanID sampled) = None \<longrightarrow>
         TraceID_String (sc_TraceID (fst (extract_dd traceID spanID sampled)))
           = padTraceID (FormatUint u 16)
         \<and> SpanID_String (sc_SpanID (fst (extract_dd traceID spanID sampled)))
           = padSpanID (FormatUint w 16))
    \<and> convertDDtoOT ''123456789'' = (''75bcd15'', True)
    \<and> TraceID_String (sc_TraceID (fst (extract_dd ''123456789'' ''987654321'' ''0'')))
         = ''000000000000000000000000075bcd15''"
proof -
  have 1: "setTraceID scc (fst (convertDDtoOT traceID))
         = (case TraceIDFromHex (padTraceID (FormatUint u 16)) of
              Inl err \<Rightarrow> None | Inr t \<Rightarrow> Some (scc\<lparr>TraceID := t\<rparr>))"
    using assms(1) by (simp add: convertDDtoOT_def setTraceID_def FormatUint_nonempty)
  have 2: "setSpanID scc (fst (convertDDtoOT spanID))
         = (case SpanIDFromHex (padSpanID (FormatUint w 16)) of
              Inl err \<Rightarrow> None | Inr s \<Rightarrow> Some (scc\<lparr>SpanID := s\<rparr>))"
    using assms(2) by (simp add: convertDDtoOT_def setSpanID_def FormatUint_nonempty)
  have 3: "snd (extract_dd traceID spanID sampled) = None \<longrightarrow>
         TraceID_String (sc_TraceID (fst (extract_dd traceID spanID sampled)))
           = padTraceID (FormatUint u 16)
         \<and> SpanID_String (sc_SpanID (fst (extract_dd traceID spanID sampled)))
           = padSpanID (FormatUint w 16)"
    using assms
    by (simp add: extract_dd_cases TraceID_String_padded SpanID_String_padded split: sum.splits)
  have 4: "convertDDtoOT ''123456789'' = (''75bcd15'', True)"
    by (simp add: convertDDtoOT_def ParseUint_small_trace FormatUint_small_trace)
  have 5: "TraceID_String (sc_TraceID (fst (extract_dd ''123456789'' ''987654321'' ''0'')))
         = ''000000000000000000000000075bcd15''"
    by (rule small_trace_string)
  show ?thesis
    using 1 2 3 4 5 length_FormatUint_16 [of u] padTraceID_eq [of u] length_padTraceID [of u]
      padSpanID_eq [of w] length_padSpanID [of w]
    by (simp only: simp_thms)
qed

theorem extract_pads_identifiers_witness:
  "extract_dd ''123456789'' ''987654321'' ''1'' =
     (\<lparr>sc_TraceID = [0,0,0,0,0,0,0,0,0,0,0,0,0x07,0x5b,0xcd,0x15],
       sc_SpanID = [0,0,0,0,0x3a,0xde,0x68,0xb1], sc_TraceFlags = 1, sc_TraceState = [],
       sc_Remote = False\<rparr>, None)
   \<and> TraceID_String [0,0,0,0,0,0,0,0,0,0,0,0,0x07,0x5b,0xcd,0x15]
       = ''000000000000000000000000075bcd15''
   \<and> SpanID_String [0,0,0,0,0x3a,0xde,0x68,0xb1] = ''000000003ade68b1''"
proof -
  note e = extract_dd_small_sampled
  have p: "padTraceID ''75bcd15'' = ''000000000000000000000000075bcd15''"
      "padSpanID ''3ade68b1'' = ''000000003ade68b1''"
    by (simp_all add: padTraceID_def padSpanID_def Sprintf_0s_def replicate_numeral)
  note t = extract_pads_identifiers [OF ParseUint_small_trace ParseUint_small_span,
      where sampled = "''1''"]
  have "TraceID_String [0,0,0,0,0,0,0,0,0,0,0,0,0x07,0x5b,0xcd,0x15]
       = ''000000000000000000000000075bcd15''"
    and "SpanID_String [0,0,0,0,0x3a,0xde,0x68,0xb1] = ''000000003ade68b1''"
    using t unfolding e FormatUint_small_trace FormatUint_small_span p by simp_all
  with e show ?thesis by (simp only: simp_thms)
qed

subsection \<open>C6: the first failure wins\<close>

text \<open>
  C6: with an empty trace-id text, \<open>extract_dd\<close> returns the zero span context and
  \<open>errMalformedTraceID\<close>, whatever the span-id and sampling texts are; with a
  well-formed trace-id text (one that parses to a non-zero number) and an empty span-id
  text it returns the zero span context and \<open>errMalformedSpanID\<close>.
\<close>

theorem extract_first_failure_wins:
  "extract_dd [] spanID sampled = (empty, Some errMalformedTraceID)
   \<and> (ParseUint traceID 10 64 = Inr u \<and> u \<noteq> 0 \<longrightarrow>
        extract_dd traceID [] sampled = (empty, Some errMalformedSpanID))"
  by (simp add: extract_dd_cases ParseUint_def)

theorem extract_first_failure_wins_witness:
  "extract_dd [] ''6023947403358210776'' [] = (empty, Some errMalformedTraceID)
   \<and> extract_dd ''8778793551513751462'' [] [] = (empty, Some errMalformedSpanID)"
  using extract_first_failure_wins [of "''6023947403358210776''" "[]"
      "''8778793551513751462''" 8778793551513751462]
  by (simp add: ParseUint_dd_trace)

subsection \<open>C7: an identifier that parses but is not well-formed\<close>

text \<open>
  C7: let a text parse as a 64-bit number \<open>u\<close>. If the padded hex form of \<open>u\<close> is
  refused by \<^verbatim>\<open>TraceIDFromHex\<close>, then \<open>extract_dd\<close> with the text as trace-id field
  returns the zero span context and \<open>errInvalidTraceIDHeader\<close>. If it is refused by
  \<^verbatim>\<open>SpanIDFromHex\<close>, then \<open>extract_dd\<close> with the text as span-id field, after a trace-id
  field that passed its step, returns the zero span context and
  \<open>errInvalidSpanIDHeader\<close>. The string of 19 zeros is such a text.
\<close>

theorem extract_invalid_identifier:
  assumes "ParseUint text 10 64 = Inr u"
  shows "(TraceIDFromHex (padTraceID (FormatUint u 16)) = Inl e \<longrightarrow>
            extract_dd text spanID sampled = (empty, Some errInvalidTraceIDHeader))
    \<and> (SpanIDFromHex (padSpanID (FormatUint u 16)) = Inl e'
          \<and> ParseUint traceID 10 64 = Inr v \<and> v \<noteq> 0 \<longrightarrow>
            extract_dd traceID text sampled = (empty, Some errInvalidSpanIDHeader))"
  using assms
  by (simp add: extract_dd_cases TraceIDFromHex_padded SpanIDFromHex_padded split: if_splits)

theorem extract_invalid_identifier_witness:
  "extract_dd ''0000000000000000000'' ''6023947403358210776'' [] = (empty, Some errInvalidTraceIDHeader)
   \<and> extract_dd ''8778793551513751462'' ''0000000000000000000'' [] = (empty, Some errInvalidSpanIDHeader)"
proof -
  have t: "TraceIDFromHex (padTraceID (FormatUint 0 16)) = Inl errNilTraceID"
    by (simp add: TraceIDFromHex_padded)
  have s: "SpanIDFromHex (padSpanID (FormatUint 0 16)) = Inl errNilSpanID"
    by (simp add: SpanIDFromHex_padded)
  note h = extract_invalid_identifier [OF ParseUint_19_zeros, of errNilTraceID
      "''6023947403358210776''" "[]" errNilSpanID "''8778793551513751462''" 8778793551513751462]
  show ?thesis
    using h t s ParseUint_dd_trace by simp
qed

subsection \<open>C8: injecting an invalid span context\<close>

text \<open>
  C8: when the trace identifier or the span identifier of the context's span context is
  invalid (the zero value), \<open>Inject\<close> returns the carrier as it was: no field is
  written.
\<close>

theorem Inject_invalid_noop:
  assumes "\<not> TraceID_IsValid (sc_TraceID (Span_SpanContext (SpanFromContext ctx)))
     \<or> \<not> SpanID_IsValid (sc_SpanID (Span_SpanContext (SpanFromContext ctx)))"
  shows "Inject ctx carrier = carrier"
  using assms by (auto simp: Inject_def Let_def)

theorem Inject_invalid_noop_witness:
  "Inject \<lparr>currentSpan = Some (nonRecordingSpan
       \<lparr>sc_TraceID = [0,0,0,0,0,0,0,0,0,0,0,0,0x07,0x5b,0xcd,0x15], sc_SpanID = replicate 8 0,
         sc_TraceFlags = 1, sc_TraceState = [], sc_Remote = False\<rparr>), otherValues = []\<rparr>
     [''k'' \<mapsto> ''v''] = [''k'' \<mapsto> ''v'']
   \<and> Inject \<lparr>currentSpan = None, otherValues = []\<rparr> Map.empty = Map.empty"
proof -
  have 1: "Inject \<lparr>currentSpan = Some (nonRecordingSpan
       \<lparr>sc_TraceID = [0,0,0,0,0,0,0,0,0,0,0,0,0x07,0x5b,0xcd,0x15], sc_SpanID = replicate 8 0,
         sc_TraceFlags = 1, sc_TraceState = [], sc_Remote = False\<rparr>), otherValues = []\<rparr>
     [''k'' \<mapsto> ''v''] = [''k'' \<mapsto> ''v'']"
    by (rule Inject_invalid_noop) (simp add: SpanFromContext_def SpanID_IsValid_def nilSpanID_def)
  have 2: "Inject \<lparr>currentSpan = None, otherValues = []\<rparr> Map.empty = Map.empty"
    by (rule Inject_invalid_noop)
      (simp add: SpanFromContext_def empty_def TraceID_IsValid_def)
  from 1 2 show ?thesis by (simp only: simp_thms)
qed

subsection \<open>C9: what \<open>Extract\<close> returns\<close>

text \<open>
  C9: \<open>Extract\<close> reads the three fields and runs \<open>extract_dd\<close>. It returns the context
  with the new span context attached as remote only when the extraction returned no
  error and a valid span context; in every other case it returns the context it was
  given. An error never leaves the function: its result is a context.
\<close>

theorem Extract_policy:
  "Extract ctx carrier =
     (case extract_dd (Get carrier traceIDHeaderKey) (Get carrier parentIDHeaderKey)
             (Get carrier priorityHeaderKey) of
        (sc, err) \<Rightarrow>
          if err = None \<and> IsValid sc then ContextWithRemoteSpanContext ctx sc else ctx)"
  by (auto simp: Extract_def Let_def split: prod.splits)

theorem Extract_policy_witness:
  "Extract \<lparr>currentSpan = None, otherValues = [(''a'', ''b'')]\<rparr>
     [''x-datadog-trace-id'' \<mapsto> ''123456789'', ''x-datadog-parent-id'' \<mapsto> ''987654321'',
      ''x-datadog-sampling-priority'' \<mapsto> ''1'']
    = \<lparr>currentSpan = Some (nonRecordingSpan
         \<lparr>sc_TraceID = [0,0,0,0,0,0,0,0,0,0,0,0,0x07,0x5b,0xcd,0x15],
           sc_SpanID = [0,0,0,0,0x3a,0xde,0x68,0xb1], sc_TraceFlags = 1, sc_TraceState = [],
           sc_Remote = True\<rparr>), otherValues = [(''a'', ''b'')]\<rparr>
   \<and> Extract \<lparr>currentSpan = None, otherValues = [(''a'', ''b'')]\<rparr>
     [''x-datadog-trace-id'' \<mapsto> ''123456789'', ''x-datadog-parent-id'' \<mapsto> ''987654321'']
    = \<lparr>currentSpan = None, otherValues = [(''a'', ''b'')]\<rparr>"
proof -
  note e1 = extract_dd_small_sampled
  have e2: "extract_dd ''123456789'' ''987654321'' [] = (empty, Some errInvalidSamplingPriorityHeader)"
    by (simp add: extract_dd_cases ParseUint_small_trace ParseUint_small_span Atoi_empty)
  have v: "IsValid \<lparr>sc_TraceID = [0,0,0,0,0,0,0,0,0,0,0,0,0x07,0x5b,0xcd,0x15],
       sc_SpanID = [0,0,0,0,0x3a,0xde,0x68,0xb1], sc_TraceFlags = 1, sc_TraceState = [],
       sc_Remote = False\<rparr>"
    by (simp add: IsValid_def TraceID_IsValid_def SpanID_IsValid_def nilTraceID_def nilSpanID_def
        replicate_numeral)
  have 1: "Extract \<lparr>currentSpan = None, otherValues = [(''a'', ''b'')]\<rparr>
     [''x-datadog-trace-id'' \<mapsto> ''123456789'', ''x-datadog-parent-id'' \<mapsto> ''987654321'',
      ''x-datadog-sampling-priority'' \<mapsto> ''1'']
    = \<lparr>currentSpan = Some (nonRecordingSpan
         \<lparr>sc_TraceID = [0,0,0,0,0,0,0,0,0,0,0,0,0x07,0x5b,0xcd,0x15],
           sc_SpanID = [0,0,0,0,0x3a,0xde,0x68,0xb1], sc_TraceFlags = 1, sc_TraceState = [],
           sc_Remote = True\<rparr>), otherValues = [(''a'', ''b'')]\<rparr>"
    by (subst Extract_policy)
      (simp add: Get_def key_defs e1 v ContextWithRemoteSpanContext_def WithRemote_def)
  have 2: "Extract \<lparr>currentSpan = None, otherValues = [(''a'', ''b'')]\<rparr>
     [''x-datadog-trace-id'' \<mapsto> ''123456789'', ''x-datadog-parent-id'' \<mapsto> ''987654321'']
    = \<lparr>currentSpan = None, otherValues = [(''a'', ''b'')]\<rparr>"
    by (subst Extract_policy) (simp add: Get_def key_defs e2)
  from 1 2 show ?thesis by (simp only: simp_thms)
qed

subsection \<open>C10: a context that injection writes and extraction refuses\<close>

text \<open>
  C10: there is a span context with a non-zero high half and an all-zero low half of
  the trace identifier and a valid span identifier. Every such span context is valid;
  \<open>Inject\<close> writes all three fields for it, the trace-id field being \<^verbatim>\<open>0\<close>; and
  \<open>extract_dd\<close> on the fields \<open>Inject\<close> wrote returns \<open>errInvalidTraceIDHeader\<close>, so
  that \<open>Extract\<close> leaves any context unchanged.
\<close>

theorem inject_extract_low_zero:
  "(\<exists>sc. lowHalfZero sc)
   \<and> (\<forall>sc ctx carrier ctx'.
        lowHalfZero sc \<and> Span_SpanContext (SpanFromContext ctx) = sc \<longrightarrow>
          IsValid sc
          \<and> Inject ctx carrier =
              carrier(traceIDHeaderKey \<mapsto> ''0'',
                parentIDHeaderKey \<mapsto> convertOTtoDD (SpanID_String (sc_SpanID sc)),
                priorityHeaderKey \<mapsto> (if IsSampled sc then isSampled else notSampled))
          \<and> extract_dd (Get (Inject ctx carrier) traceIDHeaderKey)
                (Get (Inject ctx carrier) parentIDHeaderKey)
                (Get (Inject ctx carrier) priorityHeaderKey)
              = (empty, Some errInvalidTraceIDHeader)
          \<and> Extract ctx' (Inject ctx carrier) = ctx')"
proof (intro conjI allI impI)
  let ?sc = "\<lparr>sc_TraceID = [0,0,0,0,0,0,0,1,0,0,0,0,0,0,0,0], sc_SpanID = [0,0,0,0,0,0,0,1],
     sc_TraceFlags = 0, sc_TraceState = [], sc_Remote = False\<rparr>"
  have "lowHalfZero ?sc"
    by (simp add: lowHalfZero_def SpanID_IsValid_def nilSpanID_def replicate_numeral)
  then show "\<exists>sc. lowHalfZero sc" ..
next
  fix sc ctx carrier ctx'
  assume a: "lowHalfZero sc \<and> Span_SpanContext (SpanFromContext ctx) = sc"
  then have l: "lowHalfZero sc" and c: "Span_SpanContext (SpanFromContext ctx) = sc" by simp_all
  have "sc_TraceID sc \<noteq> nilTraceID"
    using l by (auto simp: nilTraceID_def lowHalfZero_def)
  then show "IsValid sc"
    using l by (simp add: IsValid_def TraceID_IsValid_def lowHalfZero_def)
  show inj: "Inject ctx carrier =
      carrier(traceIDHeaderKey \<mapsto> ''0'',
        parentIDHeaderKey \<mapsto> convertOTtoDD (SpanID_String (sc_SpanID sc)),
        priorityHeaderKey \<mapsto> (if IsSampled sc then isSampled else notSampled))"
    by (rule Inject_lowHalfZero [OF l c])
  have g: "Get (Inject ctx carrier) traceIDHeaderKey = ''0''"
    unfolding inj by (simp add: Get_def traceIDHeaderKey_def parentIDHeaderKey_def priorityHeaderKey_def)
  show e: "extract_dd (Get (Inject ctx carrier) traceIDHeaderKey)
                (Get (Inject ctx carrier) parentIDHeaderKey)
                (Get (Inject ctx carrier) priorityHeaderKey)
              = (empty, Some errInvalidTraceIDHeader)"
    unfolding g by (rule extract_dd_zero_trace)
  show "Extract ctx' (Inject ctx carrier) = ctx'"
    by (simp add: Extract_def e)
qed

theorem inject_extract_low_zero_witness:
  "lowHalfZero \<lparr>sc_TraceID = [0,0,0,0,0,0,0,1,0,0,0,0,0,0,0,0],
       sc_SpanID = [0,0,0,0,0,0,0,1], sc_TraceFlags = 0, sc_TraceState = [], sc_Remote = False\<rparr>
   \<and> Inject \<lparr>currentSpan = Some (nonRecordingSpan
          \<lparr>sc_TraceID = [0,0,0,0,0,0,0,1,0,0,0,0,0,0,0,0], sc_SpanID = [0,0,0,0,0,0,0,1],
            sc_TraceFlags = 0, sc_TraceState = [], sc_Remote = False\<rparr>), otherValues = []\<rparr>
        Map.empty
      = [''x-datadog-trace-id'' \<mapsto> ''0'', ''x-datadog-parent-id'' \<mapsto> ''1'',
         ''x-datadog-sampling-priority'' \<mapsto> ''0'']
   \<and> extract_dd ''0'' ''1'' ''0'' = (empty, Some errInvalidTraceIDHeader)"
proof -
  let ?sc = "\<lparr>sc_TraceID = [0,0,0,0,0,0,0,1,0,0,0,0,0,0,0,0], sc_SpanID = [0,0,0,0,0,0,0,1],
     sc_TraceFlags = 0, sc_TraceState = [], sc_Remote = False\<rparr>"
  let ?ctx = "\<lparr>currentSpan = Some (nonRecordingSpan ?sc), otherValues = []\<rparr>"
  have l: "lowHalfZero ?sc"
    by (simp add: lowHalfZero_def SpanID_IsValid_def nilSpanID_def replicate_numeral)
  have c: "Span_SpanContext (SpanFromContext ?ctx) = ?sc"
    by (simp add: SpanFromContext_def)
  have p: "convertOTtoDD (SpanID_String [0,0,0,0,0,0,0,1]) = ''1''"
    by (simp add: SpanID_String_def hextable_def convertOTtoDD_def strconv_eval)
  have s: "\<not> IsSampled ?sc"
    by (simp add: IsSampled_def FlagsSampled_def)
  from inject_extract_low_zero have
    "lowHalfZero ?sc \<and> Span_SpanContext (SpanFromContext ?ctx) = ?sc \<longrightarrow>
       Inject ?ctx Map.empty =
         Map.empty(traceIDHeaderKey \<mapsto> ''0'',
           parentIDHeaderKey \<mapsto> convertOTtoDD (SpanID_String (sc_SpanID ?sc)),
           priorityHeaderKey \<mapsto> (if IsSampled ?sc then isSampled else notSampled))
       \<and> extract_dd (Get (Inject ?ctx Map.empty) traceIDHeaderKey)
            (Get (Inject ?ctx Map.empty) parentIDHeaderKey)
            (Get (Inject ?ctx Map.empty) priorityHeaderKey)
          = (empty, Some errInvalidTraceIDHeader)"
    by blast
  with l c have i: "Inject ?ctx Map.empty =
         Map.empty(traceIDHeaderKey \<mapsto> ''0'',
           parentIDHeaderKey \<mapsto> convertOTtoDD (SpanID_String (sc_SpanID ?sc)),
           priorityHeaderKey \<mapsto> (if IsSampled ?sc then isSampled else notSampled))"
    and e: "extract_dd (Get (Inject ?ctx Map.empty) traceIDHeaderKey)
            (Get (Inject ?ctx Map.empty) parentIDHeaderKey)
            (Get (Inject ?ctx Map.empty) priorityHeaderKey)
          = (empty, Some errInvalidTraceIDHeader)"
    by blast+
  have i': "Inject ?ctx Map.empty
      = [''x-datadog-trace-id'' \<mapsto> ''0'', ''x-datadog-parent-id'' \<mapsto> ''1'',
         ''x-datadog-sampling-priority'' \<mapsto> ''0'']"
    unfolding i by (simp add: p s key_defs notSampled_def)
  have e': "extract_dd ''0'' ''1'' ''0'' = (empty, Some errInvalidTraceIDHeader)"
    using e unfolding i' by (simp add: Get_def key_defs)
  from l i' e' show ?thesis by (simp only: simp_thms)
qed

section \<open>Further properties\<close>

text \<open>
  X1: whenever \<open>extract_dd\<close> returns no error, the span context it returns is valid, its
  trace identifier has 16 bytes and its span identifier 8, its trace state is empty and
  it is not marked remote. So the validity test of \<open>Extract\<close> never fails after an
  extraction without error.
\<close>

theorem extract_nil_error_valid:
  assumes "extract_dd traceID spanID sampled = (sc, None)"
  shows "IsValid sc \<and> length (sc_TraceID sc) = 16 \<and> length (sc_SpanID sc) = 8
    \<and> sc_TraceState sc = [] \<and> \<not> sc_Remote sc"
  using assms
  by (auto simp: extract_dd_cases IsValid_def valid_hexBytes_padTraceID valid_hexBytes_padSpanID
      length_hexBytes_padTraceID length_hexBytes_padSpanID split: sum.splits if_splits)

theorem extract_nil_error_valid_witness:
  "IsValid \<lparr>sc_TraceID = [0,0,0,0,0,0,0,0,0,0,0,0,0x07,0x5b,0xcd,0x15],
       sc_SpanID = [0,0,0,0,0x3a,0xde,0x68,0xb1], sc_TraceFlags = 1, sc_TraceState = [],
       sc_Remote = False\<rparr>"
  using extract_nil_error_valid [OF extract_dd_small_sampled] by simp

text \<open>
  X2: for an identifier of exactly 32 characters, \<open>convertOTtoDD\<close> encodes the last 16
  characters, as the comment of the source says.
\<close>

theorem convertOTtoDD_32_chars:
  assumes "length s = 32"
  shows "convertOTtoDD s = convertOTtoDD (drop (length s - 16) s)"
  using assms by (simp add: convertOTtoDD_def)

theorem convertOTtoDD_32_chars_witness:
  "convertOTtoDD ''b810dba29803ee61e7c71ff0c2c95a9d'' = convertOTtoDD ''e7c71ff0c2c95a9d''"
  using convertOTtoDD_32_chars [of "''b810dba29803ee61e7c71ff0c2c95a9d''"] by simp

end
